theory Spec2Isabelle
  imports Complex_Main "HOL-Library.Word"
begin

section \<open>Icon cache of ChatForge (app/core/icon\_cache.py)\<close>

text \<open>
  A shallow embedding of \<^verbatim>\<open>app/core/icon_cache.py\<close>: the default-avatar helpers, the
  download task's classification of an HTTP result, and the \<^verbatim>\<open>IconCache\<close> facade with its
  memory cache (an \<^verbatim>\<open>OrderedDict\<close>), in-flight set, negative cache and disk store.

  Python \<^verbatim>\<open>str\<close> is modelled as \<^typ>\<open>string\<close> (code points below 256), \<^verbatim>\<open>bytes\<close> as a
  list of 8-bit words, Python's unbounded \<^verbatim>\<open>int\<close> as \<^typ>\<open>int\<close>, and the readings of
  \<^verbatim>\<open>time.time()\<close> as \<^typ>\<open>real\<close> numbers handed to each operation (floating-point rounding
  of \<^verbatim>\<open>now + 300\<close> is abstracted away).
\<close>

subsection \<open>Constants\<close>

type_synonym bytes = "8 word list"
type_synonym key = string
type_synonym path = string

definition CDN_BASE :: string where
  "CDN_BASE = ''https://cdn.discordapp.com''"

definition RETRY_COOLDOWN_SECONDS :: real where
  "RETRY_COOLDOWN_SECONDS = 300"

subsection \<open>The builtins \<^verbatim>\<open>int(str)\<close> and \<^verbatim>\<open>str(int)\<close>\<close>

text \<open>
  \<^verbatim>\<open>int(s)\<close> in base 10: surrounding whitespace is stripped, one sign is allowed, then
  decimal digits follow, with single underscores allowed between digits. Anything else
  raises \<^verbatim>\<open>ValueError\<close>, which is the value \<open>None\<close> here. Among the code points below
  256 the whitespace of \<^verbatim>\<open>int\<close> is 9 to 13, 32, 133 and 160. (The limit of 4300 digits
  that newer interpreters put on the conversion is not modelled; it only turns more
  inputs into \<^verbatim>\<open>ValueError\<close>.)
\<close>

definition is_space :: "char \<Rightarrow> bool" where
  "is_space c = (let n = (of_char c :: nat) in (9 \<le> n \<and> n \<le> 13) \<or> n = 32 \<or> n = 133 \<or> n = 160)"

definition is_digit :: "char \<Rightarrow> bool" where
  "is_digit c = (let n = (of_char c :: nat) in 48 \<le> n \<and> n \<le> 57)"

definition digit_val :: "char \<Rightarrow> nat" where
  "digit_val c = of_char c - 48"

definition strip :: "string \<Rightarrow> string" where
  "strip s = rev (dropWhile is_space (rev (dropWhile is_space s)))"

text \<open>The flag says whether the previous character was a digit.\<close>

fun py_digits :: "bool \<Rightarrow> nat \<Rightarrow> string \<Rightarrow> nat option" where
  "py_digits prev acc [] = (if prev then Some acc else None)"
| "py_digits prev acc (c # cs) =
     (if is_digit c then py_digits True (10 * acc + digit_val c) cs
      else if c = CHR ''_'' \<and> prev then py_digits False acc cs
      else None)"

definition py_int :: "string \<Rightarrow> int option" where
  "py_int s =
     (case strip s of
        [] \<Rightarrow> None
      | c # cs \<Rightarrow>
          if c = CHR ''-'' then map_option (\<lambda>n. - int n) (py_digits False 0 cs)
          else if c = CHR ''+'' then map_option int (py_digits False 0 cs)
          else map_option int (py_digits False 0 (c # cs)))"

definition digit_char :: "nat \<Rightarrow> char" where
  "digit_char d = ''0123456789'' ! d"

fun str_nat :: "nat \<Rightarrow> string" where
  "str_nat n =
     (if n < 10 then [digit_char n]
      else str_nat (n div 10) @ [digit_char (n mod 10)])"

declare str_nat.simps [simp del]

definition str_int :: "int \<Rightarrow> string" where
  "str_int i = (if i < 0 then CHR ''-'' # str_nat (nat (- i)) else str_nat (nat i))"

subsection \<open>Default avatars\<close>

text \<open>
  \<^verbatim>\<open>default_avatar_index(user_id, discriminator)\<close>. An argument is \<^verbatim>\<open>None\<close> or a string;
  the test \<^verbatim>\<open>if discriminator\<close> fails for \<^verbatim>\<open>None\<close> and for the empty string. Python's
  \<^verbatim>\<open>%\<close> with a positive divisor is \<open>mod\<close> on \<^typ>\<open>int\<close>, and \<^verbatim>\<open>>> 22\<close> is the floor
  division by \<open>2 ^ 22\<close>.
\<close>

definition truthy :: "string option \<Rightarrow> bool" where
  "truthy x = (case x of None \<Rightarrow> False | Some s \<Rightarrow> s \<noteq> [])"

definition default_avatar_index :: "string option \<Rightarrow> string option \<Rightarrow> int" where
  "default_avatar_index user_id discriminator =
     (if truthy discriminator \<and> the discriminator \<notin> {''0'', ''0000''} then
        (case py_int (the discriminator) of
           Some n \<Rightarrow> n mod 5
         | None \<Rightarrow> 0)
      else if truthy user_id then
        (case py_int (the user_id) of
           Some n \<Rightarrow> (n div 2 ^ 22) mod 6
         | None \<Rightarrow> 0)
      else 0)"

definition build_default_avatar_url :: "int \<Rightarrow> int \<Rightarrow> string" where
  "build_default_avatar_url index sz =
     (let normalized = index mod 6
      in CDN_BASE @ ''/embed/avatars/'' @ str_int normalized @ ''.png?size='' @ str_int sz)"

subsection \<open>The download task\<close>

text \<open>
  What \<^verbatim>\<open>requests.get\<close> gives the task: a response with its status code and content
  (\<^verbatim>\<open>response.content\<close> may be \<^verbatim>\<open>None\<close>), or a \<^verbatim>\<open>RequestException\<close> of some class.
  The task emits one of its two signals.
\<close>

datatype http_result =
    Response (status_code: int) (content: "bytes option")
  | RequestException (class_name: string)

datatype signal = Succeeded key bytes | Failed key string

definition run :: "key \<Rightarrow> http_result \<Rightarrow> signal" where
  "run k r =
     (case r of
        RequestException name \<Rightarrow> Failed k name
      | Response status body \<Rightarrow>
          if status \<noteq> 200 then Failed k (''HTTP '' @ str_int status)
          else
            let payload = (case body of None \<Rightarrow> [] | Some b \<Rightarrow> b)
            in if payload = [] then Failed k ''empty response body''
               else Succeeded k payload)"

subsection \<open>Errors and the environment\<close>

text \<open>
  The exceptions that the modelled code can meet. An operation of the cache returns the
  exception it raised, if any, beside the state it left behind.
\<close>

datatype error = KeyError | OSError

text \<open>
  What the cache takes from its libraries: \<^verbatim>\<open>QPixmap.loadFromData\<close> (\<open>None\<close> when it
  returns \<^verbatim>\<open>False\<close>), the scaling of a pixmap to a square of the given side wrapped in a
  \<^verbatim>\<open>QIcon\<close>, and \<^verbatim>\<open>hashlib.sha256(key.encode("utf-8"))\<close> as a 256-bit digest. A \<^verbatim>\<open>QIcon\<close>
  object is true in a Python condition, so \<^verbatim>\<open>if not icon\<close> asks for \<^verbatim>\<open>None\<close>.
\<close>

record ('pix, 'icon) env =
  loadFromData :: "bytes \<Rightarrow> 'pix option"
  scaled_icon :: "'pix \<Rightarrow> int \<Rightarrow> 'icon"
  sha256 :: "string \<Rightarrow> 256 word"

definition DEFAULT_ICON_SIZE :: int where
  "DEFAULT_ICON_SIZE = 18"

definition hex_char :: "nat \<Rightarrow> char" where
  "hex_char d = ''0123456789abcdef'' ! d"

definition hexdigest :: "256 word \<Rightarrow> string" where
  "hexdigest w = map (\<lambda>i. hex_char (unat (drop_bit (4 * i) w) mod 16)) (rev [0..<64])"

text \<open>\<^verbatim>\<open>os.path.join\<close> of two components, in its POSIX flavour.\<close>

definition os_path_join :: "path \<Rightarrow> path \<Rightarrow> path" where
  "os_path_join a b =
     (if b \<noteq> [] \<and> hd b = CHR ''/'' then b
      else if a = [] \<or> last a = CHR ''/'' then a @ b
      else a @ ''/'' @ b)"

subsection \<open>The file system\<close>

text \<open>
  The regular files with their contents, the calls made so far, and the places where a
  call raises \<^verbatim>\<open>OSError\<close>: the code catches these, so each is a branch here.
  \<open>write_fails\<close> gives, for a file, the number of bytes that reach it before
  \<^verbatim>\<open>handle.write\<close> raises.
\<close>

datatype fs_call =
    MakeDirs path | IsFile path | OpenRead path | OpenWrite path
  | Replace path path | Exists path | Remove path

record fs =
  files :: "path \<rightharpoonup> bytes"
  calls :: "fs_call list"
  mkdir_fails :: "path set"
  read_fails :: "path set"
  open_fails :: "path set"
  write_fails :: "path \<rightharpoonup> nat"
  replace_fails :: "path set"
  remove_fails :: "path set"

definition called :: "fs_call \<Rightarrow> fs \<Rightarrow> fs" where
  "called c d = d\<lparr>calls := calls d @ [c]\<rparr>"

subsection \<open>The state of an \<^verbatim>\<open>IconCache\<close>\<close>

text \<open>
  \<open>memory\<close> is the \<^verbatim>\<open>OrderedDict\<close>, oldest entry first. \<open>pool\<close> holds the download tasks
  handed to the thread pool whose signal has not been delivered yet, \<open>icon_ready\<close> the
  emissions of the signal of that name, \<open>logger\<close> the key and reason of each debug
  message, and \<open>disk\<close> the file system.
\<close>

record 'icon icon_cache =
  memory :: "(key \<times> 'icon) list"
  max_items :: int
  in_flight :: "key set"
  failed_until :: "key \<rightharpoonup> real"
  disk_dir :: path
  pool :: "(key \<times> string) list"
  icon_ready :: "(key \<times> 'icon) list"
  logger :: "(key \<times> string) list"
  disk :: fs

text \<open>
  \<^verbatim>\<open>IconCache.__init__\<close>, given what \<^verbatim>\<open>user_cache_dir\<close> returned. \<^verbatim>\<open>os.makedirs\<close> is the
  only call that can raise. The bound on the worker threads does not show in this model.
\<close>

definition init :: "int \<Rightarrow> path \<Rightarrow> fs \<Rightarrow> error + 'icon icon_cache" where
  "init n cache_root d =
     (let dir = os_path_join cache_root ''icons''
      in if dir \<in> mkdir_fails d then Inl OSError
         else Inr \<lparr>memory = [], max_items = n, in_flight = {}, failed_until = Map.empty,
                   disk_dir = dir, pool = [], icon_ready = [], logger = [],
                   disk = called (MakeDirs dir) d\<rparr>)"

definition default_max_items :: int where
  "default_max_items = 256"

subsection \<open>The ordered dictionary\<close>

text \<open>\<^verbatim>\<open>d[key] = value\<close>: an existing key keeps its place, a new one goes to the end.\<close>

fun setitem :: "key \<Rightarrow> 'v \<Rightarrow> (key \<times> 'v) list \<Rightarrow> (key \<times> 'v) list" where
  "setitem k v [] = [(k, v)]"
| "setitem k v (p # ps) = (if fst p = k then (k, v) # ps else p # setitem k v ps)"

definition move_to_end :: "key \<Rightarrow> (key \<times> 'v) list \<Rightarrow> error + (key \<times> 'v) list" where
  "move_to_end k m =
     (case map_of m k of
        None \<Rightarrow> Inl KeyError
      | Some v \<Rightarrow> Inr (filter (\<lambda>p. fst p \<noteq> k) m @ [(k, v)]))"

text \<open>
  \<^verbatim>\<open>while len(self._memory) > self._max_items: self._memory.popitem(last=False)\<close>.
  \<^verbatim>\<open>popitem\<close> on an empty dictionary raises \<^verbatim>\<open>KeyError\<close>, which a negative bound reaches.
\<close>

fun evict :: "int \<Rightarrow> (key \<times> 'v) list \<Rightarrow> error option \<times> (key \<times> 'v) list" where
  "evict n [] = (if 0 > n then Some KeyError else None, [])"
| "evict n (p # ps) = (if int (length (p # ps)) > n then evict n ps else (None, p # ps))"

definition remember ::
  "key \<Rightarrow> 'icon \<Rightarrow> 'icon icon_cache \<Rightarrow> error option \<times> 'icon icon_cache" where
  "remember k icon s =
     (let m1 = setitem k icon (memory s)
      in case move_to_end k m1 of
           Inl e \<Rightarrow> (Some e, s\<lparr>memory := m1\<rparr>)
         | Inr m2 \<Rightarrow> (case evict (max_items s) m2 of (e, m3) \<Rightarrow> (e, s\<lparr>memory := m3\<rparr>)))"

text \<open>Several entries remembered one after the other, up to the first exception.\<close>

fun remember_all ::
  "(key \<times> 'icon) list \<Rightarrow> 'icon icon_cache \<Rightarrow> error option \<times> 'icon icon_cache" where
  "remember_all [] s = (None, s)"
| "remember_all (p # ps) s =
     (case remember (fst p) (snd p) s of
        (Some e, s') \<Rightarrow> (Some e, s')
      | (None, s') \<Rightarrow> remember_all ps s')"

definition get_icon ::
  "key \<Rightarrow> 'icon icon_cache \<Rightarrow> (error + 'icon option) \<times> 'icon icon_cache" where
  "get_icon k s =
     (case map_of (memory s) k of
        None \<Rightarrow> (Inr None, s)
      | Some icon \<Rightarrow>
          (case move_to_end k (memory s) of
             Inl e \<Rightarrow> (Inl e, s)
           | Inr m \<Rightarrow> (Inr (Some icon), s\<lparr>memory := m\<rparr>)))"

subsection \<open>The disk store\<close>

definition icon_from_bytes :: "('pix, 'icon) env \<Rightarrow> bytes \<Rightarrow> 'icon option" where
  "icon_from_bytes E payload =
     (case loadFromData E payload of
        None \<Rightarrow> None
      | Some pix \<Rightarrow> Some (scaled_icon E pix DEFAULT_ICON_SIZE))"

definition cache_path :: "('pix, 'icon) env \<Rightarrow> 'icon icon_cache \<Rightarrow> key \<Rightarrow> path" where
  "cache_path E s k = os_path_join (disk_dir s) (hexdigest (sha256 E k) @ ''.img'')"

text \<open>The handler of \<^verbatim>\<open>OSError\<close> in \<^verbatim>\<open>_store_to_disk\<close>; a failing removal is passed over.\<close>

definition remove_tmp :: "path \<Rightarrow> fs \<Rightarrow> fs" where
  "remove_tmp tmp d =
     (let d1 = called (Exists tmp) d
      in if files d1 tmp = None then d1
         else let d2 = called (Remove tmp) d1
              in if tmp \<in> remove_fails d2 then d2
                 else d2\<lparr>files := (files d2)(tmp := None)\<rparr>)"

definition write_replace :: "path \<Rightarrow> bytes \<Rightarrow> fs \<Rightarrow> fs" where
  "write_replace p payload d =
     (let tmp = p @ ''.tmp'';
          d1 = called (OpenWrite tmp) d
      in if tmp \<in> open_fails d1 then remove_tmp tmp d1
         else
           (case write_fails d1 tmp of
              Some n \<Rightarrow> remove_tmp tmp (d1\<lparr>files := (files d1)(tmp \<mapsto> take n payload)\<rparr>)
            | None \<Rightarrow>
                let d2 = called (Replace tmp p) (d1\<lparr>files := (files d1)(tmp \<mapsto> payload)\<rparr>)
                in if p \<in> replace_fails d2 then remove_tmp tmp d2
                   else d2\<lparr>files := (files d2)(p \<mapsto> payload, tmp := None)\<rparr>))"

definition store_to_disk ::
  "('pix, 'icon) env \<Rightarrow> key \<Rightarrow> bytes \<Rightarrow> 'icon icon_cache \<Rightarrow> 'icon icon_cache" where
  "store_to_disk E k payload s = s\<lparr>disk := write_replace (cache_path E s k) payload (disk s)\<rparr>"

definition load_from_disk ::
  "('pix, 'icon) env \<Rightarrow> key \<Rightarrow> 'icon icon_cache \<Rightarrow> 'icon option \<times> 'icon icon_cache" where
  "load_from_disk E k s =
     (let p = cache_path E s k;
          d1 = called (IsFile p) (disk s)
      in case files d1 p of
           None \<Rightarrow> (None, s\<lparr>disk := d1\<rparr>)
         | Some payload \<Rightarrow>
             let d2 = called (OpenRead p) d1
             in if p \<in> read_fails d2 then (None, s\<lparr>disk := d2\<rparr>)
                else (icon_from_bytes E payload, s\<lparr>disk := d2\<rparr>))"

subsection \<open>The facade\<close>

definition mark_failed :: "real \<Rightarrow> key \<Rightarrow> string \<Rightarrow> 'icon icon_cache \<Rightarrow> 'icon icon_cache" where
  "mark_failed now k reason s =
     s\<lparr>failed_until := (failed_until s)(k \<mapsto> now + RETRY_COOLDOWN_SECONDS),
       logger := logger s @ [(k, reason)]\<rparr>"

text \<open>
  \<^verbatim>\<open>if failed_until and failed_until > time.time()\<close>: a deadline of \<^verbatim>\<open>0.0\<close> is false in
  Python, as \<^verbatim>\<open>None\<close> is.
\<close>

definition cooling_down :: "real \<Rightarrow> key \<Rightarrow> 'icon icon_cache \<Rightarrow> bool" where
  "cooling_down now k s =
     (case failed_until s k of
        None \<Rightarrow> False
      | Some t \<Rightarrow> t \<noteq> 0 \<and> t > now)"

definition request_icon ::
  "('pix, 'icon) env \<Rightarrow> real \<Rightarrow> key \<Rightarrow> string option \<Rightarrow> 'icon icon_cache
     \<Rightarrow> error option \<times> 'icon icon_cache" where
  "request_icon E now k url s =
     (if k = [] then (None, s)
      else if map_of (memory s) k \<noteq> None then (None, s)
      else if k \<in> in_flight s then (None, s)
      else if cooling_down now k s then (None, s)
      else
        (case load_from_disk E k s of
           (Some icon, s1) \<Rightarrow>
             (case remember k icon s1 of
                (Some e, s2) \<Rightarrow> (Some e, s2)
              | (None, s2) \<Rightarrow> (None, s2\<lparr>icon_ready := icon_ready s2 @ [(k, icon)]\<rparr>))
         | (None, s1) \<Rightarrow>
             if \<not> truthy url then (None, s1)
             else (None, s1\<lparr>in_flight := insert k (in_flight s1),
                              pool := pool s1 @ [(k, the url)]\<rparr>)))"

definition on_download_succeeded ::
  "('pix, 'icon) env \<Rightarrow> real \<Rightarrow> key \<Rightarrow> bytes \<Rightarrow> 'icon icon_cache
     \<Rightarrow> error option \<times> 'icon icon_cache" where
  "on_download_succeeded E now k payload s =
     (let s1 = s\<lparr>in_flight := in_flight s - {k}\<rparr>
      in case icon_from_bytes E payload of
           None \<Rightarrow> (None, mark_failed now k ''invalid image'' s1)
         | Some icon \<Rightarrow>
             (case remember k icon s1 of
                (Some e, s2) \<Rightarrow> (Some e, s2)
              | (None, s2) \<Rightarrow>
                  let s3 = store_to_disk E k payload s2;
                      s4 = s3\<lparr>failed_until := (failed_until s3)(k := None)\<rparr>
                  in (None, s4\<lparr>icon_ready := icon_ready s4 @ [(k, icon)]\<rparr>)))"

definition on_download_failed ::
  "real \<Rightarrow> key \<Rightarrow> string \<Rightarrow> 'icon icon_cache \<Rightarrow> 'icon icon_cache" where
  "on_download_failed now k reason s =
     mark_failed now k reason (s\<lparr>in_flight := in_flight s - {k}\<rparr>)"

subsection \<open>The cache at work\<close>

text \<open>
  A task of the pool finishes: \<^verbatim>\<open>run\<close> turns what \<^verbatim>\<open>requests.get\<close> gave into a signal,
  and the connected slot of the cache handles it.
\<close>

definition deliver ::
  "('pix, 'icon) env \<Rightarrow> real \<Rightarrow> key \<times> string \<Rightarrow> http_result \<Rightarrow> 'icon icon_cache
     \<Rightarrow> error option \<times> 'icon icon_cache" where
  "deliver E now j r s =
     (let s0 = s\<lparr>pool := remove1 j (pool s)\<rparr>
      in case run (fst j) r of
           Succeeded k payload \<Rightarrow> on_download_succeeded E now k payload s0
         | Failed k reason \<Rightarrow> (None, on_download_failed now k reason s0))"

text \<open>
  The states a cache can be in: it is constructed, its two public methods are called
  with any arguments at any time, outstanding tasks finish in any order with any
  result, and the files change under it.
\<close>

inductive reachable :: "('pix, 'icon) env \<Rightarrow> 'icon icon_cache \<Rightarrow> bool" for E where
  constructed: "init n cache_root d = Inr s \<Longrightarrow> reachable E s"
| requested: "reachable E s \<Longrightarrow> request_icon E now k url s = (e, s') \<Longrightarrow> reachable E s'"
| looked_up: "reachable E s \<Longrightarrow> get_icon k s = (r, s') \<Longrightarrow> reachable E s'"
| delivered:
    "reachable E s \<Longrightarrow> j \<in> set (pool s) \<Longrightarrow> deliver E now j h s = (e, s') \<Longrightarrow> reachable E s'"
| files_changed: "reachable E s \<Longrightarrow> reachable E (s\<lparr>disk := d\<rparr>)"

subsection \<open>What holds of every state of a cache\<close>

text \<open>
  No two outstanding tasks are for the same key, the in-flight set is the set of their
  keys, and the memory cache is within its bound when that is not negative.
\<close>

definition cache_inv :: "'icon icon_cache \<Rightarrow> bool" where
  "cache_inv s =
     (distinct (map fst (pool s)) \<and> fst ` set (pool s) = in_flight s
      \<and> (0 \<le> max_items s \<longrightarrow> int (length (memory s)) \<le> max_items s))"

subsection \<open>An example environment\<close>

text \<open>
  A decoder that accepts the byte strings starting with 137 (the first byte of a PNG
  file), an icon that keeps the pixmap's bytes and its side, a stand-in for the digest,
  and a file system with no files and no failures.
\<close>

definition example_env :: "(bytes, bytes \<times> int) env" where
  "example_env =
     \<lparr>loadFromData = (\<lambda>b. if b \<noteq> [] \<and> hd b = 137 then Some b else None),
      scaled_icon = (\<lambda>pix side. (pix, side)),
      sha256 = (\<lambda>k. of_nat (length k))\<rparr>"

definition example_fs :: fs where
  "example_fs =
     \<lparr>files = Map.empty, calls = [], mkdir_fails = {}, read_fails = {}, open_fails = {},
      write_fails = Map.empty, replace_fails = {}, remove_fails = {}\<rparr>"

definition example_cache :: "(bytes \<times> int) icon_cache" where
  "example_cache =
     \<lparr>memory = [], max_items = 256, in_flight = {}, failed_until = Map.empty,
      disk_dir = ''/cache/icons'', pool = [], icon_ready = [], logger = [],
      disk = called (MakeDirs ''/cache/icons'') example_fs\<rparr>"

section \<open>The claims, as the specification words them\<close>

text \<open>
  The classification of a response as the specification words it: any status outside
  200..299 is a failure whose reason is the status code, a 2xx status with an empty body
  is a failure with the reason "empty response", and a 2xx status with a body is a
  success.
\<close>

definition classify_spec :: "key \<Rightarrow> int \<Rightarrow> bytes \<Rightarrow> signal" where
  "classify_spec k status body =
     (if \<not> (200 \<le> status \<and> status < 300) then Failed k (str_int status)
      else if body = [] then Failed k ''empty response''
      else Succeeded k body)"

text \<open>
  The default avatar index as the specification words it: a cascade in which a
  discriminator that does not parse falls through to the user id.
\<close>

definition default_avatar_index_spec :: "string option \<Rightarrow> string option \<Rightarrow> int" where
  "default_avatar_index_spec user_id discriminator =
     (if truthy discriminator \<and> the discriminator \<notin> {''0'', ''0000''}
         \<and> py_int (the discriminator) \<noteq> None
      then the (py_int (the discriminator)) mod 5
      else if truthy user_id \<and> py_int (the user_id) \<noteq> None
      then (the (py_int (the user_id)) div 2 ^ 22) mod 6
      else 0)"

text \<open>
  The memory cache's \<open>put\<close> as the specification words it: insert or update the key,
  make it the most recently used, then drop least recently used entries while there are
  more than \<open>capacity\<close>.
\<close>

definition put_spec :: "nat \<Rightarrow> key \<Rightarrow> 'v \<Rightarrow> (key \<times> 'v) list \<Rightarrow> (key \<times> 'v) list" where
  "put_spec capacity k v m =
     (let m' = filter (\<lambda>p. fst p \<noteq> k) m @ [(k, v)]
      in drop (length m' - capacity) m')"

section \<open>Evaluation rules\<close>

lemmas py_int_eval = py_int_def strip_def is_space_def is_digit_def digit_val_def
lemmas str_int_eval = str_int_def str_nat.simps digit_char_def

section \<open>The ordered dictionary, paths and the invariant\<close>

lemma map_of_setitem: "map_of (setitem k v m) k = Some v"
  by (induction m) auto

lemma filter_setitem:
  "filter (\<lambda>p. fst p \<noteq> k) (setitem k v m) = filter (\<lambda>p. fst p \<noteq> k) m"
  by (induction m) auto

lemma move_to_end_setitem:
  "move_to_end k (setitem k v m) = Inr (filter (\<lambda>p. fst p \<noteq> k) m @ [(k, v)])"
  by (simp add: move_to_end_def map_of_setitem filter_setitem)

lemma evict_nonneg: "0 \<le> n \<Longrightarrow> evict n m = (None, drop (length m - nat n) m)"
proof (induction m)
  case Nil
  then show ?case by simp
next
  case (Cons p ps)
  show ?case
  proof (cases "int (length (p # ps)) > n")
    case True
    with Cons.prems have "nat n \<le> length ps" by simp
    then have "length (p # ps) - nat n = Suc (length ps - nat n)"
      by (simp add: Suc_diff_le)
    with True Cons show ?thesis by simp
  next
    case False
    then have "length (p # ps) - nat n = 0" by linarith
    with False show ?thesis by simp
  qed
qed

lemma evict_negative: "n < 0 \<Longrightarrow> evict n m = (Some KeyError, [])"
  by (induction m) auto

lemma remember_nonneg:
  "0 \<le> max_items s \<Longrightarrow>
   remember k icon s = (None, s\<lparr>memory := put_spec (nat (max_items s)) k icon (memory s)\<rparr>)"
  by (simp add: remember_def move_to_end_setitem evict_nonneg put_spec_def)

lemma remember_negative:
  "max_items s < 0 \<Longrightarrow> remember k icon s = (Some KeyError, s\<lparr>memory := []\<rparr>)"
  by (simp add: remember_def move_to_end_setitem evict_negative)

lemma hex_char_not_slash: "n < 16 \<Longrightarrow> hex_char n \<noteq> CHR ''/''"
proof -
  assume "n < 16"
  then have "hex_char n \<in> set ''0123456789abcdef''"
    unfolding hex_char_def by (intro nth_mem) simp
  then show ?thesis by auto
qed

lemma hexdigest_hd: "hexdigest w \<noteq> [] \<and> hd (hexdigest w) \<noteq> CHR ''/''"
proof -
  have "hd (hexdigest w) = hex_char (unat (drop_bit (4 * last [0..<64]) w) mod 16)"
    unfolding hexdigest_def by (simp add: hd_map hd_rev del: upt.simps)
  then show ?thesis
    by (simp add: hexdigest_def hex_char_not_slash del: upt.simps)
qed

lemma length_hexdigest: "length (hexdigest w) = 64"
  by (simp add: hexdigest_def)

lemma load_from_disk_frame:
  "load_from_disk E k s = (r, s1) \<Longrightarrow> \<exists>d. s1 = s\<lparr>disk := d\<rparr>"
  by (auto simp add: load_from_disk_def Let_def split: option.splits if_splits)

lemma remember_frame:
  "remember k icon s = (e, s2) \<Longrightarrow>
   \<exists>m. s2 = s\<lparr>memory := m\<rparr> \<and> (0 \<le> max_items s \<longrightarrow> int (length m) \<le> max_items s)"
proof (cases "0 \<le> max_items s")
  case True
  assume "remember k icon s = (e, s2)"
  with True show ?thesis
    by (auto simp add: remember_def move_to_end_setitem evict_nonneg)
next
  case False
  assume "remember k icon s = (e, s2)"
  with False show ?thesis
    by (auto simp add: remember_def move_to_end_setitem evict_negative)
qed

lemma inv_disk: "cache_inv (s\<lparr>disk := d\<rparr>) = cache_inv s"
  by (simp add: cache_inv_def)

lemma inv_memory:
  "cache_inv s \<Longrightarrow> (0 \<le> max_items s \<longrightarrow> int (length m) \<le> max_items s) \<Longrightarrow> cache_inv (s\<lparr>memory := m\<rparr>)"
  by (simp add: cache_inv_def)

lemma inv_icon_ready: "cache_inv (s\<lparr>icon_ready := x\<rparr>) = cache_inv s"
  by (simp add: cache_inv_def)

lemma inv_schedule:
  "cache_inv s \<Longrightarrow> k \<notin> in_flight s \<Longrightarrow>
   cache_inv (s\<lparr>in_flight := insert k (in_flight s), pool := pool s @ [(k, u)]\<rparr>)"
  by (auto simp add: cache_inv_def)

lemma request_icon_inv:
  assumes "cache_inv s" and "request_icon E now k url s = (e, s')"
  shows "cache_inv s'"
proof (cases "k = [] \<or> map_of (memory s) k \<noteq> None \<or> k \<in> in_flight s \<or> cooling_down now k s")
  case True
  with assms show ?thesis
    by (auto simp add: request_icon_def split: if_splits)
next
  case False
  obtain r s1 where l: "load_from_disk E k s = (r, s1)"
    by (cases "load_from_disk E k s")
  from load_from_disk_frame[OF l] obtain d where s1: "s1 = s\<lparr>disk := d\<rparr>"
    by auto
  with assms(1) have i1: "cache_inv s1" by (simp add: inv_disk)
  from False s1 have nf: "k \<notin> in_flight s1" by simp
  show ?thesis
  proof (cases r)
    case None
    with assms(2) False l have "s' = s1 \<or> s' = s1\<lparr>in_flight := insert k (in_flight s1), pool := pool s1 @ [(k, the url)]\<rparr>"
      by (auto simp add: request_icon_def split: if_splits)
    with i1 nf show ?thesis
      using inv_schedule by blast
  next
    case (Some icon)
    obtain e2 s2 where r2: "remember k icon s1 = (e2, s2)"
      by (cases "remember k icon s1")
    from remember_frame[OF r2]
    obtain m where m: "s2 = s1\<lparr>memory := m\<rparr>" "0 \<le> max_items s1 \<longrightarrow> int (length m) \<le> max_items s1"
      by auto
    with i1 have i2: "cache_inv s2" by (simp add: inv_memory)
    from assms(2) False l Some r2 have "s' = s2 \<or> s' = s2\<lparr>icon_ready := icon_ready s2 @ [(k, icon)]\<rparr>"
      by (auto simp add: request_icon_def split: if_splits option.splits)
    with i2 show ?thesis
      by (auto simp add: inv_icon_ready)
  qed
qed

lemma get_icon_inv:
  assumes "cache_inv s" and "get_icon k s = (r, s')"
  shows "cache_inv s'"
proof (cases "map_of (memory s) k")
  case None
  with assms show ?thesis by (simp add: get_icon_def)
next
  case (Some icon)
  then have "(k, icon) \<in> set (memory s)" by (rule map_of_SomeD)
  then have "length (filter (\<lambda>p. fst p \<noteq> k) (memory s)) < length (memory s)"
    by (intro length_filter_less[of "(k, icon)"]) auto
  then have "0 \<le> max_items s \<longrightarrow>
      int (length (filter (\<lambda>p. fst p \<noteq> k) (memory s) @ [(k, icon)])) \<le> max_items s"
    using assms(1) by (auto simp add: cache_inv_def)
  with assms(1) have "cache_inv (s\<lparr>memory := filter (\<lambda>p. fst p \<noteq> k) (memory s) @ [(k, icon)]\<rparr>)"
    by (rule inv_memory)
  moreover from assms(2) Some
  have "s' = s\<lparr>memory := filter (\<lambda>p. fst p \<noteq> k) (memory s) @ [(k, icon)]\<rparr>"
    by (simp add: get_icon_def move_to_end_def)
  ultimately show ?thesis by simp
qed

lemma remove1_keys:
  "distinct (map fst xs) \<Longrightarrow> j \<in> set xs \<Longrightarrow>
   distinct (map fst (remove1 j xs)) \<and> fst ` set (remove1 j xs) = fst ` set xs - {fst j}"
proof (induction xs)
  case Nil
  then show ?case by simp
next
  case (Cons x xs)
  show ?case
  proof (cases "j = x")
    case True
    with Cons.prems show ?thesis by auto
  next
    case False
    with Cons.prems have "j \<in> set xs" "distinct (map fst xs)" by auto
    with Cons.IH have ih: "distinct (map fst (remove1 j xs))"
      "fst ` set (remove1 j xs) = fst ` set xs - {fst j}" by auto
    from Cons.prems \<open>j \<in> set xs\<close> have "fst x \<noteq> fst j" by force
    with False ih Cons.prems show ?thesis by auto
  qed
qed

lemma inv_taken:
  "cache_inv s \<Longrightarrow> j \<in> set (pool s) \<Longrightarrow>
   cache_inv (s\<lparr>pool := remove1 j (pool s), in_flight := in_flight s - {fst j}\<rparr>)"
  using remove1_keys[of "pool s" j] by (auto simp add: cache_inv_def)

lemma run_key:
  "run k h = Succeeded k' p \<Longrightarrow> k' = k"
  "run k h = Failed k' r \<Longrightarrow> k' = k"
  by (auto simp add: run_def Let_def split: http_result.splits if_splits)

lemma cache_inv_cong:
  "pool s' = pool s \<Longrightarrow> in_flight s' = in_flight s \<Longrightarrow> memory s' = memory s \<Longrightarrow>
   max_items s' = max_items s \<Longrightarrow> cache_inv s' = cache_inv s"
  by (simp add: cache_inv_def)

lemma on_download_failed_inv:
  assumes "cache_inv (s\<lparr>in_flight := in_flight s - {k}\<rparr>)"
  shows "cache_inv (on_download_failed now k reason s)"
proof -
  have "cache_inv (on_download_failed now k reason s)
      = cache_inv (s\<lparr>in_flight := in_flight s - {k}\<rparr>)"
    by (rule cache_inv_cong) (simp_all add: on_download_failed_def mark_failed_def)
  with assms show ?thesis by simp
qed

lemma on_download_succeeded_inv:
  assumes "cache_inv (s\<lparr>in_flight := in_flight s - {k}\<rparr>)"
    and "on_download_succeeded E now k payload s = (e, s')"
  shows "cache_inv s'"
proof (cases "icon_from_bytes E payload")
  case None
  with assms(2)
  have s': "s' = mark_failed now k ''invalid image'' (s\<lparr>in_flight := in_flight s - {k}\<rparr>)"
    by (simp add: on_download_succeeded_def)
  have "cache_inv s' = cache_inv (s\<lparr>in_flight := in_flight s - {k}\<rparr>)"
    unfolding s' by (rule cache_inv_cong) (simp_all add: mark_failed_def)
  with assms(1) show ?thesis by simp
next
  case (Some icon)
  let ?s1 = "s\<lparr>in_flight := in_flight s - {k}\<rparr>"
  obtain e2 s2 where r2: "remember k icon ?s1 = (e2, s2)"
    by (cases "remember k icon ?s1")
  from remember_frame[OF r2]
  obtain m where m: "s2 = ?s1\<lparr>memory := m\<rparr>"
    "0 \<le> max_items ?s1 \<longrightarrow> int (length m) \<le> max_items ?s1"
    by auto
  with assms(1) have i2: "cache_inv s2" by (simp add: inv_memory)
  from assms(2) Some r2
  have "s' = s2 \<or> s' = (store_to_disk E k payload s2)
          \<lparr>failed_until := (failed_until (store_to_disk E k payload s2))(k := None),
           icon_ready := icon_ready (store_to_disk E k payload s2) @ [(k, icon)]\<rparr>"
    by (auto simp add: on_download_succeeded_def Let_def split: option.splits)
  then show ?thesis
  proof
    assume "s' = s2" with i2 show ?thesis by simp
  next
    assume s': "s' = (store_to_disk E k payload s2)
          \<lparr>failed_until := (failed_until (store_to_disk E k payload s2))(k := None),
           icon_ready := icon_ready (store_to_disk E k payload s2) @ [(k, icon)]\<rparr>"
    have "cache_inv s' = cache_inv s2"
      unfolding s' by (rule cache_inv_cong) (simp_all add: store_to_disk_def)
    with i2 show ?thesis by simp
  qed
qed

lemma deliver_inv:
  assumes "cache_inv s" and "j \<in> set (pool s)" and "deliver E now j h s = (e, s')"
  shows "cache_inv s'"
proof -
  let ?s0 = "s\<lparr>pool := remove1 j (pool s)\<rparr>"
  from inv_taken[OF assms(1,2)]
  have t: "cache_inv (?s0\<lparr>in_flight := in_flight ?s0 - {fst j}\<rparr>)" by simp
  show ?thesis
  proof (cases "run (fst j) h")
    case (Succeeded k payload)
    then have "k = fst j" by (rule run_key)
    with assms(3) Succeeded have "on_download_succeeded E now (fst j) payload ?s0 = (e, s')"
      by (simp add: deliver_def)
    with t show ?thesis by (rule on_download_succeeded_inv)
  next
    case (Failed k reason)
    then have "k = fst j" by (rule run_key)
    with assms(3) Failed have "s' = on_download_failed now (fst j) reason ?s0"
      by (simp add: deliver_def)
    with t show ?thesis by (simp add: on_download_failed_inv)
  qed
qed

lemma init_inv: "init n cache_root d = Inr s \<Longrightarrow> cache_inv s"
  by (auto simp add: init_def Let_def cache_inv_def split: if_splits)

lemma reachable_inv: "reachable E s \<Longrightarrow> cache_inv s"
proof (induction rule: reachable.induct)
  case (constructed n cache_root d s)
  then show ?case by (rule init_inv)
next
  case (requested s now k url e s')
  then show ?case using request_icon_inv by blast
next
  case (looked_up s k r s')
  then show ?case using get_icon_inv by blast
next
  case (delivered s j now h e s')
  then show ?case using deliver_inv by blast
next
  case (files_changed s d)
  then show ?case by (simp add: inv_disk)
qed

lemma distinct_keys_once:
  "distinct (map fst xs) \<Longrightarrow> length (filter (\<lambda>j. fst j = k) xs) \<le> 1"
proof (induction xs)
  case Nil
  then show ?case by simp
next
  case (Cons x xs)
  show ?case
  proof (cases "fst x = k")
    case True
    with Cons.prems have "k \<notin> fst ` set xs" by simp
    then have "\<forall>j \<in> set xs. fst j \<noteq> k" by blast
    then have "filter (\<lambda>j. fst j = k) xs = []"
      by (simp add: filter_empty_conv)
    with True show ?thesis by simp
  next
    case False
    with Cons show ?thesis by simp
  qed
qed

section \<open>The download task classifies its response\<close>

text \<open>
  C1, as the code has it. The task tests \<^verbatim>\<open>status_code != 200\<close>: every status other than
  200, the other 2xx codes included, is a failure with the reason \<^verbatim>\<open>HTTP <status>\<close>;
  a 200 response whose content is \<^verbatim>\<open>None\<close> or empty is a failure with the reason
  \<^verbatim>\<open>empty response body\<close>; a 200 response with a non-empty body is a success carrying
  exactly the body bytes.
\<close>

theorem run_classifies:
  "(status \<noteq> 200 \<longrightarrow> run k (Response status body) = Failed k (''HTTP '' @ str_int status))
   \<and> run k (Response 200 None) = Failed k ''empty response body''
   \<and> run k (Response 200 (Some [])) = Failed k ''empty response body''
   \<and> (b \<noteq> [] \<longrightarrow> run k (Response 200 (Some b)) = Succeeded k b)"
  by (simp add: run_def)

theorem run_classifies_witness:
  "run ''guild:1:ab'' (Response 404 None) = Failed ''guild:1:ab'' ''HTTP 404''
   \<and> run ''guild:1:ab'' (Response 200 (Some [137, 80])) = Succeeded ''guild:1:ab'' [137, 80]"
  using run_classifies [of 404 "''guild:1:ab''" None "[137, 80]"]
  by (simp add: str_int_eval)

text \<open>
  C1 as stated fails at a 2xx status other than 200: a 203 response with a body is a
  success in the specification's wording and a failure in the code.
\<close>

theorem run_2xx_counterexample:
  "run ''guild:1:ab'' (Response 203 (Some [137, 80])) = Failed ''guild:1:ab'' ''HTTP 203''
   \<and> classify_spec ''guild:1:ab'' 203 [137, 80] = Succeeded ''guild:1:ab'' [137, 80]"
  by (simp add: run_def classify_spec_def str_int_eval)

section \<open>The default avatar index\<close>

text \<open>
  C2, as the code has it. A discriminator that is present (not \<^verbatim>\<open>None\<close>, not empty) and
  is neither \<^verbatim>\<open>"0"\<close> nor \<^verbatim>\<open>"0000"\<close> decides the index alone: \<^verbatim>\<open>int(discriminator) mod 5\<close>
  when it parses and 0 when it does not, whatever the user id is. Only when the
  discriminator is absent, empty or a sentinel is the user id read: the index is
  \<^verbatim>\<open>(int(user_id) >> 22) mod 6\<close> when the id is present and parses, and 0 otherwise.
  The function never raises.
\<close>

theorem default_avatar_index_cases:
  "(truthy d \<and> the d \<noteq> ''0'' \<and> the d \<noteq> ''0000'' \<and> py_int (the d) = Some n
      \<longrightarrow> default_avatar_index u d = n mod 5)
   \<and> (truthy d \<and> the d \<noteq> ''0'' \<and> the d \<noteq> ''0000'' \<and> py_int (the d) = None
      \<longrightarrow> default_avatar_index u d = 0)
   \<and> ((\<not> truthy d \<or> the d = ''0'' \<or> the d = ''0000'') \<and> truthy u \<and> py_int (the u) = Some m
      \<longrightarrow> default_avatar_index u d = (m div 2 ^ 22) mod 6)
   \<and> ((\<not> truthy d \<or> the d = ''0'' \<or> the d = ''0000'') \<and> (\<not> truthy u \<or> py_int (the u) = None)
      \<longrightarrow> default_avatar_index u d = 0)"
  by (auto simp add: default_avatar_index_def)

theorem default_avatar_index_cases_witness:
  "default_avatar_index (Some ''80351110224678912'') (Some ''1234'') = 4
   \<and> default_avatar_index (Some ''80351110224678912'') (Some ''12a4'') = 0
   \<and> default_avatar_index (Some ''80351110224678912'') (Some ''0'') = 5
   \<and> default_avatar_index (Some ''someone'') None = 0"
  using default_avatar_index_cases
          [of "Some ''1234''" 1234 "Some ''80351110224678912''" 0]
        default_avatar_index_cases
          [of "Some ''12a4''" 0 "Some ''80351110224678912''" 0]
        default_avatar_index_cases
          [of "Some ''0''" 0 "Some ''80351110224678912''" 80351110224678912]
        default_avatar_index_cases
          [of None 0 "Some ''someone''" 0]
  by (simp add: truthy_def py_int_eval)

text \<open>
  C2 as stated fails where the discriminator is present but does not parse: the
  cascade of the specification goes on to the user id (index 5 here), the code
  returns 0.
\<close>

theorem default_avatar_index_counterexample:
  "default_avatar_index (Some ''80351110224678912'') (Some ''12a4'') = 0
   \<and> default_avatar_index_spec (Some ''80351110224678912'') (Some ''12a4'') = 5"
  by (simp add: default_avatar_index_def default_avatar_index_spec_def truthy_def py_int_eval)

text \<open>
  C10. The index is always between 0 and 5, so the normalisation \<^verbatim>\<open>index % 6\<close> of
  \<^verbatim>\<open>build_default_avatar_url\<close> leaves it as it is: the URL carries the index itself.
\<close>

theorem default_avatar_index_range:
  "0 \<le> default_avatar_index u d \<and> default_avatar_index u d \<le> 5
   \<and> default_avatar_index u d mod 6 = default_avatar_index u d
   \<and> build_default_avatar_url (default_avatar_index u d) sz =
       CDN_BASE @ ''/embed/avatars/'' @ str_int (default_avatar_index u d)
         @ ''.png?size='' @ str_int sz"
proof -
  have lo: "0 \<le> default_avatar_index u d"
    by (simp add: default_avatar_index_def split: option.split)
  have hi: "default_avatar_index u d \<le> 5"
  proof -
    have "n mod 5 \<le> 5" and "n mod 6 \<le> 5" for n :: int
      by presburger+
    then show ?thesis
      by (simp add: default_avatar_index_def split: option.split)
  qed
  from lo hi have same: "default_avatar_index u d mod 6 = default_avatar_index u d"
    by simp
  from lo hi same show ?thesis
    by (simp add: build_default_avatar_url_def)
qed

theorem default_avatar_index_range_witness:
  "default_avatar_index (Some ''80351110224678912'') (Some ''1234'') mod 6 = 4
   \<and> build_default_avatar_url (default_avatar_index (Some ''80351110224678912'') (Some ''1234'')) 64
       = ''https://cdn.discordapp.com/embed/avatars/4.png?size=64''"
proof -
  have v: "default_avatar_index (Some ''80351110224678912'') (Some ''1234'') = 4"
    by (simp add: default_avatar_index_def truthy_def py_int_eval)
  show ?thesis
    using default_avatar_index_range [of "Some ''80351110224678912''" "Some ''1234''" 64]
    by (simp add: v CDN_BASE_def str_int_eval)
qed

section \<open>Example states\<close>

lemma example_cache_init: "init 256 ''/cache'' example_fs = Inr example_cache"
  by (simp add: init_def example_cache_def example_fs_def os_path_join_def Let_def)

lemma example_request:
  "request_icon example_env 0 ''guild:1:ab'' (Some ''https://cdn/x.png'') example_cache
   = (None, example_cache\<lparr>
        disk := called (IsFile (cache_path example_env example_cache ''guild:1:ab'')) (disk example_cache),
        in_flight := {''guild:1:ab''},
        pool := [(''guild:1:ab'', ''https://cdn/x.png'')]\<rparr>)"
  by (simp add: request_icon_def cooling_down_def load_from_disk_def truthy_def example_cache_def
      example_fs_def called_def Let_def)

section \<open>Requests that change nothing\<close>

text \<open>
  C9. \<^verbatim>\<open>request_icon\<close> with the empty string as key returns at once: the state is the
  one it was given, so the memory cache, the negative cache, the in-flight set and the
  files are unchanged, no file-system call is made, no task is started and no signal is
  emitted.
\<close>

theorem request_icon_empty_key: "request_icon E now [] url s = (None, s)"
  by (simp add: request_icon_def)

lemma request_icon_in_flight: "k \<in> in_flight s \<Longrightarrow> request_icon E now k url s = (None, s)"
  by (simp add: request_icon_def)

lemma request_icon_pool:
  assumes "request_icon E now k url s = (e, s1)"
  shows "pool s1 = pool s \<or> (pool s1 = pool s @ [(k, the url)] \<and> k \<in> in_flight s1)"
proof (cases "k = [] \<or> map_of (memory s) k \<noteq> None \<or> k \<in> in_flight s \<or> cooling_down now k s")
  case True
  with assms show ?thesis
    by (auto simp add: request_icon_def split: if_splits)
next
  case False
  obtain r s0 where l: "load_from_disk E k s = (r, s0)"
    by (cases "load_from_disk E k s")
  from load_from_disk_frame[OF l] obtain d where s0: "s0 = s\<lparr>disk := d\<rparr>"
    by auto
  show ?thesis
  proof (cases r)
    case None
    with assms False l s0 show ?thesis
      by (auto simp add: request_icon_def split: if_splits)
  next
    case (Some icon)
    obtain e2 s2 where r2: "remember k icon s0 = (e2, s2)"
      by (cases "remember k icon s0")
    from remember_frame[OF r2] obtain m where m: "s2 = s0\<lparr>memory := m\<rparr>"
      by auto
    from assms False l Some r2
    have "s1 = s2 \<or> s1 = s2\<lparr>icon_ready := icon_ready s2 @ [(k, icon)]\<rparr>"
      by (auto simp add: request_icon_def split: if_splits option.splits)
    with m s0 show ?thesis by auto
  qed
qed

text \<open>
  C3. A request for a key that is in flight changes nothing. A request that starts a
  task puts its key in flight, so a second request for the key, at any time and with any
  URL, starts none before the first is delivered. In every state of a cache there is at
  most one outstanding task per key, and a key is in flight exactly when a task for it is
  outstanding.
\<close>

theorem request_icon_dedup:
  "(k \<in> in_flight s \<longrightarrow> request_icon E now k url s = (None, s))
   \<and> (request_icon E now k url s = (e, s1) \<and> pool s1 \<noteq> pool s \<longrightarrow>
        pool s1 = pool s @ [(k, the url)] \<and> k \<in> in_flight s1
        \<and> request_icon E now' k url' s1 = (None, s1))
   \<and> (reachable E s \<longrightarrow>
        length (filter (\<lambda>j. fst j = k) (pool s)) \<le> 1
        \<and> (k \<in> in_flight s \<longleftrightarrow> k \<in> fst ` set (pool s)))"
proof (intro conjI impI)
  assume "k \<in> in_flight s"
  then show "request_icon E now k url s = (None, s)"
    by (rule request_icon_in_flight)
next
  assume a: "request_icon E now k url s = (e, s1) \<and> pool s1 \<noteq> pool s"
  with request_icon_pool[of E now k url s e s1]
  show "pool s1 = pool s @ [(k, the url)]" and f: "k \<in> in_flight s1"
    by auto
  from f show "request_icon E now' k url' s1 = (None, s1)"
    by (rule request_icon_in_flight)
next
  assume "reachable E s"
  then have i: "cache_inv s" by (rule reachable_inv)
  then have "distinct (map fst (pool s))"
    by (simp add: cache_inv_def)
  then show "length (filter (\<lambda>j. fst j = k) (pool s)) \<le> 1"
    by (rule distinct_keys_once)
  from i show "k \<in> in_flight s \<longleftrightarrow> k \<in> fst ` set (pool s)"
    by (simp add: cache_inv_def)
qed

theorem request_icon_dedup_witness:
  "request_icon example_env 0 ''guild:1:ab'' (Some ''https://cdn/x.png'') example_cache
     = (None, example_cache\<lparr>
        disk := called (IsFile (cache_path example_env example_cache ''guild:1:ab'')) (disk example_cache),
        in_flight := {''guild:1:ab''},
        pool := [(''guild:1:ab'', ''https://cdn/x.png'')]\<rparr>)
   \<and> request_icon example_env 1 ''guild:1:ab'' (Some ''https://cdn/y.png'')
        (snd (request_icon example_env 0 ''guild:1:ab'' (Some ''https://cdn/x.png'') example_cache))
     = (None, snd (request_icon example_env 0 ''guild:1:ab'' (Some ''https://cdn/x.png'') example_cache))
   \<and> length (filter (\<lambda>j. fst j = ''guild:1:ab'')
        (pool (snd (request_icon example_env 0 ''guild:1:ab'' (Some ''https://cdn/x.png'') example_cache)))) \<le> 1"
proof -
  let ?s1 = "snd (request_icon example_env 0 ''guild:1:ab'' (Some ''https://cdn/x.png'') example_cache)"
  have r0: "reachable example_env example_cache"
    using example_cache_init by (rule reachable.constructed)
  have r1: "reachable example_env ?s1"
  proof (rule reachable.requested[OF r0])
    show "request_icon example_env 0 ''guild:1:ab'' (Some ''https://cdn/x.png'') example_cache
        = (None, ?s1)"
      by (simp add: example_request)
  qed
  have "pool ?s1 = [(''guild:1:ab'', ''https://cdn/x.png'')]"
    by (simp add: example_request)
  moreover have "pool example_cache = []"
    by (simp add: example_cache_def)
  ultimately have p: "pool ?s1 \<noteq> pool example_cache"
    by simp
  show ?thesis
    using request_icon_dedup [of "''guild:1:ab''" ?s1 example_env 1 "Some ''https://cdn/y.png''"
        None ?s1 1 "Some ''https://cdn/y.png''"]
      request_icon_dedup [of "''guild:1:ab''" example_cache example_env 0 "Some ''https://cdn/x.png''"
        None ?s1 1 "Some ''https://cdn/y.png''"]
      r1 p
    by (simp add: example_request)
qed

section \<open>The negative cache\<close>

lemma request_icon_cooling_down:
  "cooling_down now k s \<Longrightarrow> request_icon E now k url s = (None, s)"
  by (simp add: request_icon_def)

lemma load_from_disk_failed_until:
  "load_from_disk E k (s\<lparr>failed_until := f\<rparr>) =
     (case load_from_disk E k s of (r, s1) \<Rightarrow> (r, s1\<lparr>failed_until := f\<rparr>))"
  by (simp add: load_from_disk_def cache_path_def Let_def split: option.split)

lemma remember_failed_until:
  "remember k icon (s\<lparr>failed_until := f\<rparr>) =
     (case remember k icon s of (e, s1) \<Rightarrow> (e, s1\<lparr>failed_until := f\<rparr>))"
  by (simp add: remember_def Let_def split: sum.split prod.split)

lemma request_icon_failed_until:
  assumes "\<not> cooling_down now k s" and "\<not> cooling_down now k (s\<lparr>failed_until := f\<rparr>)"
  shows "request_icon E now k url (s\<lparr>failed_until := f\<rparr>) =
     (case request_icon E now k url s of (e, s') \<Rightarrow> (e, s'\<lparr>failed_until := f\<rparr>))"
proof (cases "load_from_disk E k s")
  case (Pair r s0)
  show ?thesis
  proof (cases r)
    case None
    with assms Pair show ?thesis
      by (simp add: request_icon_def load_from_disk_failed_until)
  next
    case (Some icon)
    with assms Pair show ?thesis
      by (cases "remember k icon s0")
        (auto simp add: request_icon_def load_from_disk_failed_until remember_failed_until
          split: option.split)
  qed
qed

text \<open>
  C4. A fetch failure delivered at time \<open>now0\<close> records the deadline \<open>now0 + 300\<close> for
  its key. While the deadline is in the future a request for the key returns the state it
  was given: no file-system call is made and no task is started. (Python reads the
  deadline \<^verbatim>\<open>0.0\<close> as false, so the deadline must not be the number zero, which no
  clock after 1970 gives.) Once the deadline has passed the key is no longer cooling
  down and a request does what it would do without the entry, which only stays in the
  dictionary; when the key is neither cached, in flight nor on disk and a URL is given,
  the request starts a task.
\<close>

theorem cooldown:
  "failed_until (on_download_failed now0 k reason s) k = Some (now0 + 300)
   \<and> (now0 + 300 \<noteq> 0 \<and> now < now0 + 300 \<longrightarrow>
        request_icon E now k url (on_download_failed now0 k reason s)
          = (None, on_download_failed now0 k reason s))
   \<and> (failed_until s k = Some t \<and> t \<le> now \<longrightarrow>
        \<not> cooling_down now k s
        \<and> request_icon E now k url s =
            (case request_icon E now k url (s\<lparr>failed_until := (failed_until s)(k := None)\<rparr>) of
               (e, s') \<Rightarrow> (e, s'\<lparr>failed_until := failed_until s\<rparr>)))
   \<and> (failed_until s k = Some t \<and> t \<le> now \<and> k \<noteq> [] \<and> map_of (memory s) k = None
        \<and> k \<notin> in_flight s \<and> files (disk s) (cache_path E s k) = None \<and> truthy url \<longrightarrow>
        request_icon E now k url s =
          (None, s\<lparr>disk := called (IsFile (cache_path E s k)) (disk s),
                    in_flight := insert k (in_flight s),
                    pool := pool s @ [(k, the url)]\<rparr>))"
proof (intro conjI impI)
  show "failed_until (on_download_failed now0 k reason s) k = Some (now0 + 300)"
    by (simp add: on_download_failed_def mark_failed_def RETRY_COOLDOWN_SECONDS_def)
next
  assume "now0 + 300 \<noteq> 0 \<and> now < now0 + 300"
  then have "cooling_down now k (on_download_failed now0 k reason s)"
    by (simp add: cooling_down_def on_download_failed_def mark_failed_def RETRY_COOLDOWN_SECONDS_def)
  then show "request_icon E now k url (on_download_failed now0 k reason s)
      = (None, on_download_failed now0 k reason s)"
    by (rule request_icon_cooling_down)
next
  assume a: "failed_until s k = Some t \<and> t \<le> now"
  then show c: "\<not> cooling_down now k s"
    by (simp add: cooling_down_def)
  let ?s0 = "s\<lparr>failed_until := (failed_until s)(k := None)\<rparr>"
  have c0: "\<not> cooling_down now k ?s0"
    by (simp add: cooling_down_def)
  have "s = ?s0\<lparr>failed_until := failed_until s\<rparr>" by simp
  then have "request_icon E now k url s
      = request_icon E now k url (?s0\<lparr>failed_until := failed_until s\<rparr>)"
    by simp
  also have "\<dots> = (case request_icon E now k url ?s0 of
      (e, s') \<Rightarrow> (e, s'\<lparr>failed_until := failed_until s\<rparr>))"
    using c0 c by (intro request_icon_failed_until) simp_all
  finally show "request_icon E now k url s =
      (case request_icon E now k url ?s0 of (e, s') \<Rightarrow> (e, s'\<lparr>failed_until := failed_until s\<rparr>))" .
next
  assume "failed_until s k = Some t \<and> t \<le> now \<and> k \<noteq> [] \<and> map_of (memory s) k = None
        \<and> k \<notin> in_flight s \<and> files (disk s) (cache_path E s k) = None \<and> truthy url"
  then show "request_icon E now k url s =
          (None, s\<lparr>disk := called (IsFile (cache_path E s k)) (disk s),
                    in_flight := insert k (in_flight s),
                    pool := pool s @ [(k, the url)]\<rparr>)"
    by (simp add: request_icon_def cooling_down_def load_from_disk_def called_def Let_def)
qed

theorem cooldown_witness:
  "failed_until (on_download_failed 1000 ''guild:1:ab'' ''HTTP 404'' example_cache) ''guild:1:ab''
     = Some 1300
   \<and> request_icon example_env 1001 ''guild:1:ab'' (Some ''https://cdn/x.png'')
        (on_download_failed 1000 ''guild:1:ab'' ''HTTP 404'' example_cache)
     = (None, on_download_failed 1000 ''guild:1:ab'' ''HTTP 404'' example_cache)
   \<and> pool (snd (request_icon example_env 1300 ''guild:1:ab'' (Some ''https://cdn/x.png'')
        (on_download_failed 1000 ''guild:1:ab'' ''HTTP 404'' example_cache)))
     = [(''guild:1:ab'', ''https://cdn/x.png'')]"
proof -
  let ?sf = "on_download_failed 1000 ''guild:1:ab'' ''HTTP 404'' example_cache"
  have f: "failed_until ?sf ''guild:1:ab'' = Some 1300"
    by (simp add: on_download_failed_def mark_failed_def RETRY_COOLDOWN_SECONDS_def)
  have m: "map_of (memory ?sf) ''guild:1:ab'' = None" "''guild:1:ab'' \<notin> in_flight ?sf"
    "pool ?sf = []"
    by (simp_all add: on_download_failed_def mark_failed_def example_cache_def)
  have d: "files (disk ?sf) (cache_path example_env ?sf ''guild:1:ab'') = None"
    by (simp add: on_download_failed_def mark_failed_def example_cache_def example_fs_def
        called_def)
  have u: "truthy (Some ''https://cdn/x.png'')"
    by (simp add: truthy_def)
  note first = cooldown [where ?now0.0 = 1000 and k = "''guild:1:ab''" and reason = "''HTTP 404''"
      and s = example_cache and now = 1001 and E = example_env
      and url = "Some ''https://cdn/x.png''" and t = 0]
  note later = cooldown [where ?now0.0 = 0 and k = "''guild:1:ab''" and reason = "[]"
      and s = ?sf and now = 1300 and E = example_env
      and url = "Some ''https://cdn/x.png''" and t = 1300]
  from first [THEN conjunct1] have a: "failed_until ?sf ''guild:1:ab'' = Some 1300"
    by simp
  from first [THEN conjunct2, THEN conjunct1]
  have b: "request_icon example_env 1001 ''guild:1:ab'' (Some ''https://cdn/x.png'') ?sf
      = (None, ?sf)"
    by simp
  from later [THEN conjunct2, THEN conjunct2, THEN conjunct2] f m d u
  have c: "pool (snd (request_icon example_env 1300 ''guild:1:ab'' (Some ''https://cdn/x.png'')
      ?sf)) = [(''guild:1:ab'', ''https://cdn/x.png'')]"
    by simp
  from a b c show ?thesis by simp
qed

section \<open>Payloads that do not decode\<close>

text \<open>
  C6. When the bytes of a success signal do not decode, the handler removes the key
  from the in-flight set, records the deadline \<open>now + 300\<close> and logs the reason
  \<^verbatim>\<open>invalid image\<close>; nothing else changes: the memory cache, the files and the
  emitted signals are as before. A 200 response with such a non-empty body is delivered
  in exactly this way.
\<close>

theorem invalid_image_is_failure:
  "icon_from_bytes E payload = None \<longrightarrow>
     on_download_succeeded E now k payload s =
       (None, s\<lparr>in_flight := in_flight s - {k},
                 failed_until := (failed_until s)(k \<mapsto> now + 300),
                 logger := logger s @ [(k, ''invalid image'')]\<rparr>)
     \<and> memory (snd (on_download_succeeded E now k payload s)) = memory s
     \<and> disk (snd (on_download_succeeded E now k payload s)) = disk s
     \<and> icon_ready (snd (on_download_succeeded E now k payload s)) = icon_ready s
     \<and> (payload \<noteq> [] \<longrightarrow>
          deliver E now (k, u) (Response 200 (Some payload)) s =
            (None, s\<lparr>pool := remove1 (k, u) (pool s),
                      in_flight := in_flight s - {k},
                      failed_until := (failed_until s)(k \<mapsto> now + 300),
                      logger := logger s @ [(k, ''invalid image'')]\<rparr>))"
  by (simp add: on_download_succeeded_def mark_failed_def RETRY_COOLDOWN_SECONDS_def
      deliver_def run_def)

theorem invalid_image_is_failure_witness:
  "icon_from_bytes example_env [1, 2, 3] = None
   \<and> deliver example_env 5 (''guild:1:ab'', ''https://cdn/x.png'') (Response 200 (Some [1, 2, 3]))
        (example_cache\<lparr>in_flight := {''guild:1:ab''},
                        pool := [(''guild:1:ab'', ''https://cdn/x.png'')]\<rparr>)
     = (None, example_cache\<lparr>in_flight := {}, pool := [],
                failed_until := [''guild:1:ab'' \<mapsto> 305],
                logger := [(''guild:1:ab'', ''invalid image'')]\<rparr>)"
proof -
  have n: "icon_from_bytes example_env [1, 2, 3] = None"
    by (simp add: icon_from_bytes_def example_env_def)
  show ?thesis
    using invalid_image_is_failure [of example_env "[1, 2, 3]" 5 "''guild:1:ab''"
        "example_cache\<lparr>in_flight := {''guild:1:ab''},
                        pool := [(''guild:1:ab'', ''https://cdn/x.png'')]\<rparr>"
        "''https://cdn/x.png''"] n
    by (simp add: example_cache_def)
qed

section \<open>Eviction and the disk store\<close>

lemma filter_absent_key:
  "k \<notin> fst ` set m \<Longrightarrow> filter (\<lambda>p. fst p \<noteq> k) m = m"
  by (induction m) auto

lemma put_spec_new:
  "k \<notin> fst ` set m \<Longrightarrow>
   put_spec c k v m = drop (length (m @ [(k, v)]) - c) (m @ [(k, v)])"
  by (simp add: put_spec_def filter_absent_key)

lemma length_put_spec: "length (put_spec c k v m) \<le> c"
  by (simp add: put_spec_def Let_def)

lemma last_put_spec: "1 \<le> c \<Longrightarrow> last (put_spec c k v m) = (k, v)"
proof -
  assume c: "1 \<le> c"
  let ?m = "filter (\<lambda>p. fst p \<noteq> k) m"
  have "length (?m @ [(k, v)]) - c \<le> length ?m"
    using c by simp
  then have "drop (length (?m @ [(k, v)]) - c) (?m @ [(k, v)])
      = drop (length (?m @ [(k, v)]) - c) ?m @ [(k, v)]"
    by simp
  then show ?thesis
    by (simp add: put_spec_def Let_def)
qed

lemma map_of_put_spec: "1 \<le> c \<Longrightarrow> map_of (put_spec c k v m) k = Some v"
proof -
  assume c: "1 \<le> c"
  let ?m = "filter (\<lambda>p. fst p \<noteq> k) m"
  let ?n = "length (?m @ [(k, v)]) - c"
  have "?n \<le> length ?m"
    using c by simp
  then have d: "put_spec c k v m = drop ?n ?m @ [(k, v)]"
    by (simp add: put_spec_def Let_def)
  have "k \<notin> fst ` set (drop ?n ?m)"
    using set_drop_subset[of ?n ?m] by auto
  then have "map_of (drop ?n ?m) k = None"
    by (simp add: map_of_eq_None_iff)
  then show ?thesis
    unfolding d by (simp add: map_add_def)
qed

lemma distinct_drop_append: "distinct (xs @ ys) \<Longrightarrow> distinct (drop n xs @ ys)"
  using set_drop_subset[of n xs] by (auto simp add: distinct_drop)

lemma memory_twice: "s\<lparr>memory := a, memory := b\<rparr> = s\<lparr>memory := b\<rparr>"
  by simp

lemma drop_lengths:
  "length m \<le> c \<Longrightarrow>
   length (drop (length (m @ [p]) - c) (m @ [p]) @ ps) - c + (length (m @ [p]) - c)
     = length (m @ p # ps) - c"
  by (simp only: length_append length_drop list.size)

lemma remember_all_distinct:
  "0 \<le> max_items s \<Longrightarrow> distinct (map fst (memory s @ ps)) \<Longrightarrow>
   length (memory s) \<le> nat (max_items s) \<Longrightarrow>
   remember_all ps s =
     (None, s\<lparr>memory := drop (length (memory s @ ps) - nat (max_items s)) (memory s @ ps)\<rparr>)"
proof (induction ps arbitrary: s)
  case Nil
  then show ?case by simp
next
  case (Cons p ps)
  let ?c = "nat (max_items s)"
  let ?m = "memory s"
  let ?a = "length (?m @ [p]) - ?c"
  let ?m1 = "drop ?a (?m @ [p])"
  let ?s1 = "s\<lparr>memory := ?m1\<rparr>"
  from Cons.prems(2) have new: "fst p \<notin> fst ` set ?m" by auto
  then have "put_spec ?c (fst p) (snd p) ?m = ?m1"
    using put_spec_new[of "fst p" ?m ?c "snd p"] by simp
  with Cons.prems(1) have r: "remember (fst p) (snd p) s = (None, ?s1)"
    by (simp add: remember_nonneg)
  have "set ?m1 \<subseteq> set (?m @ [p])" by (rule set_drop_subset)
  have d1: "distinct (map fst (?m1 @ ps))"
  proof -
    have "map fst (?m1 @ ps) = drop ?a (map fst (?m @ [p])) @ map fst ps"
      unfolding map_append[of fst ?m1 ps] drop_map[symmetric] ..
    moreover from Cons.prems(2) have "distinct (map fst (?m @ [p]) @ map fst ps)"
      by simp
    then have "distinct (drop ?a (map fst (?m @ [p])) @ map fst ps)"
      by (rule distinct_drop_append)
    ultimately show ?thesis by simp
  qed
  have l1: "length ?m1 \<le> ?c" by simp
  from Cons.IH[of ?s1] Cons.prems(1) d1 l1
  have ih: "remember_all ps ?s1 =
      (None, ?s1\<lparr>memory := drop (length (?m1 @ ps) - ?c) (?m1 @ ps)\<rparr>)"
    by simp
  have eq: "drop (length (?m1 @ ps) - ?c) (?m1 @ ps)
      = drop (length (?m @ p # ps) - ?c) (?m @ p # ps)"
  proof -
    have "?m1 @ ps = drop ?a ((?m @ [p]) @ ps)"
      by (simp del: append_assoc)
    then have "drop (length (?m1 @ ps) - ?c) (?m1 @ ps)
        = drop (length (?m1 @ ps) - ?c + ?a) ((?m @ [p]) @ ps)"
      by (simp only: drop_drop)
    also from Cons.prems(3)
    have "length (?m1 @ ps) - ?c + ?a = length (?m @ p # ps) - ?c"
      by (rule drop_lengths)
    also have "(?m @ [p]) @ ps = ?m @ p # ps"
      by (simp only: append_assoc append_Cons append_Nil)
    finally show ?thesis .
  qed
  have "remember_all (p # ps) s = remember_all ps ?s1"
    using r by (simp only: remember_all.simps prod.case option.case)
  also note ih
  also have "?s1\<lparr>memory := drop (length (?m1 @ ps) - ?c) (?m1 @ ps)\<rparr>
      = s\<lparr>memory := drop (length (?m @ p # ps) - ?c) (?m @ p # ps)\<rparr>"
    unfolding eq by (rule memory_twice)
  finally show ?case .
qed

lemma write_replace_ok:
  "p @ ''.tmp'' \<notin> open_fails d \<Longrightarrow> write_fails d (p @ ''.tmp'') = None \<Longrightarrow>
   p \<notin> replace_fails d \<Longrightarrow> files (write_replace p payload d) p = Some payload"
  by (simp add: write_replace_def called_def Let_def)

lemma remove_tmp_other:
  "q \<noteq> tmp \<Longrightarrow> files (remove_tmp tmp d) q = files d q"
  by (simp add: remove_tmp_def called_def Let_def)

lemma write_replace_failed:
  "p @ ''.tmp'' \<in> open_fails d \<or> write_fails d (p @ ''.tmp'') \<noteq> None \<or> p \<in> replace_fails d
   \<Longrightarrow> files (write_replace p payload d) p = files d p"
  by (auto simp add: write_replace_def called_def Let_def remove_tmp_other split: option.split)

section \<open>The memory cache\<close>

text \<open>
  C7. With a bound that is not negative, \<^verbatim>\<open>_remember\<close> is the \<open>put\<close> of the
  specification: the key is inserted or updated and becomes the most recently used
  (the last) entry, then entries are dropped from the least recently used end while
  there are more than \<open>max_items\<close>, so the result never exceeds the bound. A new key
  given to a full cache drops exactly the first, least recently used, entry. Remembering
  \<open>max_items + 1\<close> distinct keys in an empty cache leaves the last \<open>max_items\<close> of them:
  the first one is evicted. \<^verbatim>\<open>get_icon\<close> on a hit moves the key to the most recently
  used end and on a miss changes nothing. The bound of a cache built with the default
  argument is 256.
\<close>

theorem memory_cache_lru:
  "(0 \<le> max_items s \<longrightarrow>
      remember k icon s = (None, s\<lparr>memory := put_spec (nat (max_items s)) k icon (memory s)\<rparr>)
      \<and> length (put_spec (nat (max_items s)) k icon (memory s)) \<le> nat (max_items s)
      \<and> (1 \<le> max_items s \<longrightarrow> last (put_spec (nat (max_items s)) k icon (memory s)) = (k, icon)))
   \<and> (0 \<le> max_items s \<and> k \<notin> fst ` set (memory s) \<and> length (memory s) = nat (max_items s) \<longrightarrow>
        remember k icon s = (None, s\<lparr>memory := drop 1 (memory s @ [(k, icon)])\<rparr>))
   \<and> (0 \<le> max_items s \<and> memory s = [] \<and> distinct (map fst ps)
        \<and> length ps = nat (max_items s) + 1 \<longrightarrow>
        remember_all ps s = (None, s\<lparr>memory := tl ps\<rparr>)
        \<and> length (tl ps) = nat (max_items s))
   \<and> (map_of (memory s) k = Some icon \<longrightarrow>
        get_icon k s =
          (Inr (Some icon), s\<lparr>memory := filter (\<lambda>p. fst p \<noteq> k) (memory s) @ [(k, icon)]\<rparr>))
   \<and> (map_of (memory s) k = None \<longrightarrow> get_icon k s = (Inr None, s))
   \<and> (init default_max_items cache_root d = Inr s \<longrightarrow> max_items s = 256)"
proof (intro conjI impI)
  assume "0 \<le> max_items s"
  then show "remember k icon s
      = (None, s\<lparr>memory := put_spec (nat (max_items s)) k icon (memory s)\<rparr>)"
    by (rule remember_nonneg)
next
  show "length (put_spec (nat (max_items s)) k icon (memory s)) \<le> nat (max_items s)"
    by (rule length_put_spec)
next
  assume "1 \<le> max_items s"
  then have "1 \<le> nat (max_items s)" by simp
  then show "last (put_spec (nat (max_items s)) k icon (memory s)) = (k, icon)"
    by (rule last_put_spec)
next
  assume a: "0 \<le> max_items s \<and> k \<notin> fst ` set (memory s) \<and> length (memory s) = nat (max_items s)"
  then have "put_spec (nat (max_items s)) k icon (memory s) = drop 1 (memory s @ [(k, icon)])"
    using put_spec_new[of k "memory s" "nat (max_items s)" icon] by simp
  with a show "remember k icon s = (None, s\<lparr>memory := drop 1 (memory s @ [(k, icon)])\<rparr>)"
    by (simp add: remember_nonneg)
next
  assume a: "0 \<le> max_items s \<and> memory s = [] \<and> distinct (map fst ps)
      \<and> length ps = nat (max_items s) + 1"
  then have "remember_all ps s =
      (None, s\<lparr>memory := drop (length (memory s @ ps) - nat (max_items s)) (memory s @ ps)\<rparr>)"
    by (intro remember_all_distinct) simp_all
  with a show "remember_all ps s = (None, s\<lparr>memory := tl ps\<rparr>)"
    by (simp add: drop_Suc)
  from a show "length (tl ps) = nat (max_items s)"
    by simp
next
  assume "map_of (memory s) k = Some icon"
  then show "get_icon k s =
      (Inr (Some icon), s\<lparr>memory := filter (\<lambda>p. fst p \<noteq> k) (memory s) @ [(k, icon)]\<rparr>)"
    by (simp add: get_icon_def move_to_end_def)
next
  assume "map_of (memory s) k = None"
  then show "get_icon k s = (Inr None, s)"
    by (simp add: get_icon_def)
next
  assume "init default_max_items cache_root d = Inr s"
  then show "max_items s = 256"
    by (auto simp add: init_def default_max_items_def Let_def split: if_splits)
qed

theorem memory_cache_lru_witness:
  "remember_all [(''a'', ([137], 18)), (''b'', ([137], 18)), (''c'', ([137], 18))]
       (example_cache\<lparr>max_items := 2\<rparr>)
     = (None, example_cache\<lparr>max_items := 2,
                memory := [(''b'', ([137], 18)), (''c'', ([137], 18))]\<rparr>)
   \<and> get_icon ''b'' (example_cache\<lparr>max_items := 2,
                memory := [(''b'', ([137], 18)), (''c'', ([137], 18))]\<rparr>)
     = (Inr (Some ([137], 18)),
        example_cache\<lparr>max_items := 2,
                memory := [(''c'', ([137], 18)), (''b'', ([137], 18))]\<rparr>)
   \<and> remember ''d'' ([137], 18) (example_cache\<lparr>max_items := 2,
                memory := [(''c'', ([137], 18)), (''b'', ([137], 18))]\<rparr>)
     = (None, example_cache\<lparr>max_items := 2,
                memory := [(''b'', ([137], 18)), (''d'', ([137], 18))]\<rparr>)"
proof -
  let ?x = "([137], 18) :: bytes \<times> int"
  let ?s = "example_cache\<lparr>max_items := 2\<rparr>"
  have e: "memory ?s = []" "max_items ?s = 2"
    by (simp_all add: example_cache_def)
  from memory_cache_lru [where s = ?s and ps = "[(''a'', ?x), (''b'', ?x), (''c'', ?x)]",
      THEN conjunct2, THEN conjunct2, THEN conjunct1] e
  have a: "remember_all [(''a'', ?x), (''b'', ?x), (''c'', ?x)] ?s
      = (None, ?s\<lparr>memory := [(''b'', ?x), (''c'', ?x)]\<rparr>)"
    by simp
  from memory_cache_lru [where s = "?s\<lparr>memory := [(''b'', ?x), (''c'', ?x)]\<rparr>"
      and k = "''b''" and icon = ?x,
      THEN conjunct2, THEN conjunct2, THEN conjunct2, THEN conjunct1]
  have b: "get_icon ''b'' (?s\<lparr>memory := [(''b'', ?x), (''c'', ?x)]\<rparr>)
      = (Inr (Some ?x), ?s\<lparr>memory := [(''c'', ?x), (''b'', ?x)]\<rparr>)"
    by simp
  from memory_cache_lru [where s = "?s\<lparr>memory := [(''c'', ?x), (''b'', ?x)]\<rparr>"
      and k = "''d''" and icon = ?x, THEN conjunct2, THEN conjunct1] e
  have c: "remember ''d'' ?x (?s\<lparr>memory := [(''c'', ?x), (''b'', ?x)]\<rparr>)
      = (None, ?s\<lparr>memory := [(''b'', ?x), (''d'', ?x)]\<rparr>)"
    by simp
  from a b c show ?thesis by simp
qed

section \<open>A download that succeeds\<close>

lemma example_decodes: "icon_from_bytes example_env [137, 80] = Some ([137, 80], 18)"
  by (simp add: icon_from_bytes_def example_env_def DEFAULT_ICON_SIZE_def)

text \<open>
  C5, as the code has it. For a payload that decodes and a cache whose bound is at
  least 1, the handler returns without an exception, having removed the key from the
  in-flight set, put the icon in the memory cache as its most recently used entry,
  attempted the write to the disk store, removed the key's deadline and emitted one
  \<^verbatim>\<open>icon_ready\<close> signal for the key and the icon. The file of the key holds the payload
  when no call of the write raises \<^verbatim>\<open>OSError\<close>; when one does, the file is what it was
  before, and the other effects are the same.
\<close>

theorem download_succeeded:
  "icon_from_bytes E payload = Some icon \<and> 1 \<le> max_items s \<longrightarrow>
     on_download_succeeded E now k payload s =
       (None, s\<lparr>in_flight := in_flight s - {k},
                 memory := put_spec (nat (max_items s)) k icon (memory s),
                 disk := write_replace (cache_path E s k) payload (disk s),
                 failed_until := (failed_until s)(k := None),
                 icon_ready := icon_ready s @ [(k, icon)]\<rparr>)
     \<and> map_of (put_spec (nat (max_items s)) k icon (memory s)) k = Some icon
     \<and> (cache_path E s k @ ''.tmp'' \<notin> open_fails (disk s)
          \<and> write_fails (disk s) (cache_path E s k @ ''.tmp'') = None
          \<and> cache_path E s k \<notin> replace_fails (disk s) \<longrightarrow>
          files (write_replace (cache_path E s k) payload (disk s)) (cache_path E s k)
            = Some payload)
     \<and> (cache_path E s k @ ''.tmp'' \<in> open_fails (disk s)
          \<or> write_fails (disk s) (cache_path E s k @ ''.tmp'') \<noteq> None
          \<or> cache_path E s k \<in> replace_fails (disk s) \<longrightarrow>
          files (write_replace (cache_path E s k) payload (disk s)) (cache_path E s k)
            = files (disk s) (cache_path E s k))"
proof (intro impI conjI)
  assume a: "icon_from_bytes E payload = Some icon \<and> 1 \<le> max_items s"
  let ?s1 = "s\<lparr>in_flight := in_flight s - {k}\<rparr>"
  from a have "0 \<le> max_items ?s1" by simp
  then have "remember k icon ?s1
      = (None, ?s1\<lparr>memory := put_spec (nat (max_items ?s1)) k icon (memory ?s1)\<rparr>)"
    by (rule remember_nonneg)
  with a show "on_download_succeeded E now k payload s =
       (None, s\<lparr>in_flight := in_flight s - {k},
                 memory := put_spec (nat (max_items s)) k icon (memory s),
                 disk := write_replace (cache_path E s k) payload (disk s),
                 failed_until := (failed_until s)(k := None),
                 icon_ready := icon_ready s @ [(k, icon)]\<rparr>)"
    by (simp add: on_download_succeeded_def store_to_disk_def cache_path_def)
  from a have "1 \<le> max_items s" by simp
  then have "1 \<le> nat (max_items s)" by simp
  then show "map_of (put_spec (nat (max_items s)) k icon (memory s)) k = Some icon"
    by (rule map_of_put_spec)
next
  assume "cache_path E s k @ ''.tmp'' \<notin> open_fails (disk s)
          \<and> write_fails (disk s) (cache_path E s k @ ''.tmp'') = None
          \<and> cache_path E s k \<notin> replace_fails (disk s)"
  then show "files (write_replace (cache_path E s k) payload (disk s)) (cache_path E s k)
            = Some payload"
    by (simp add: write_replace_ok)
next
  assume "cache_path E s k @ ''.tmp'' \<in> open_fails (disk s)
          \<or> write_fails (disk s) (cache_path E s k @ ''.tmp'') \<noteq> None
          \<or> cache_path E s k \<in> replace_fails (disk s)"
  then show "files (write_replace (cache_path E s k) payload (disk s)) (cache_path E s k)
            = files (disk s) (cache_path E s k)"
    by (rule write_replace_failed)
qed

theorem download_succeeded_witness:
  "icon_from_bytes example_env [137, 80] = Some ([137, 80], 18)
   \<and> fst (on_download_succeeded example_env 5 ''guild:1:ab'' [137, 80]
        (example_cache\<lparr>in_flight := {''guild:1:ab''}, failed_until := [''guild:1:ab'' \<mapsto> 100]\<rparr>))
       = None
   \<and> memory (snd (on_download_succeeded example_env 5 ''guild:1:ab'' [137, 80]
        (example_cache\<lparr>in_flight := {''guild:1:ab''}, failed_until := [''guild:1:ab'' \<mapsto> 100]\<rparr>)))
       = [(''guild:1:ab'', ([137, 80], 18))]
   \<and> in_flight (snd (on_download_succeeded example_env 5 ''guild:1:ab'' [137, 80]
        (example_cache\<lparr>in_flight := {''guild:1:ab''}, failed_until := [''guild:1:ab'' \<mapsto> 100]\<rparr>)))
       = {}
   \<and> failed_until (snd (on_download_succeeded example_env 5 ''guild:1:ab'' [137, 80]
        (example_cache\<lparr>in_flight := {''guild:1:ab''}, failed_until := [''guild:1:ab'' \<mapsto> 100]\<rparr>)))
        ''guild:1:ab'' = None
   \<and> icon_ready (snd (on_download_succeeded example_env 5 ''guild:1:ab'' [137, 80]
        (example_cache\<lparr>in_flight := {''guild:1:ab''}, failed_until := [''guild:1:ab'' \<mapsto> 100]\<rparr>)))
       = [(''guild:1:ab'', ([137, 80], 18))]
   \<and> files (disk (snd (on_download_succeeded example_env 5 ''guild:1:ab'' [137, 80]
        (example_cache\<lparr>in_flight := {''guild:1:ab''}, failed_until := [''guild:1:ab'' \<mapsto> 100]\<rparr>))))
        (cache_path example_env example_cache ''guild:1:ab'')
       = Some [137, 80]"
proof -
  let ?s = "example_cache\<lparr>in_flight := {''guild:1:ab''}, failed_until := [''guild:1:ab'' \<mapsto> 100]\<rparr>"
  let ?p = "cache_path example_env ?s ''guild:1:ab''"
  have p: "?p = cache_path example_env example_cache ''guild:1:ab''"
    by (simp add: cache_path_def)
  have e: "max_items ?s = 256" "memory ?s = []" "icon_ready ?s = []"
    "open_fails (disk ?s) = {}" "write_fails (disk ?s) = Map.empty"
    "replace_fails (disk ?s) = {}"
    by (simp_all add: example_cache_def example_fs_def called_def)
  have m: "put_spec 256 ''guild:1:ab'' ([137, 80], 18) [] = [(''guild:1:ab'', ([137, 80], 18))]"
    by (simp add: put_spec_def)
  note t = download_succeeded [where E = example_env and payload = "[137, 80]"
      and icon = "([137, 80], 18)" and s = ?s and now = 5 and k = "''guild:1:ab''"]
  from t example_decodes e
  have r: "on_download_succeeded example_env 5 ''guild:1:ab'' [137, 80] ?s =
       (None, ?s\<lparr>in_flight := {},
                 memory := [(''guild:1:ab'', ([137, 80], 18))],
                 disk := write_replace ?p [137, 80] (disk ?s),
                 failed_until := Map.empty,
                 icon_ready := [(''guild:1:ab'', ([137, 80], 18))]\<rparr>)"
    by (simp add: m)
  from t example_decodes e
  have f: "files (write_replace ?p [137, 80] (disk ?s)) ?p = Some [137, 80]"
    by simp
  show ?thesis
    unfolding r using f by (simp add: example_decodes p)
qed

text \<open>
  C5 as stated fails in two ways. On a disk where no file can be opened for writing the
  payload is not persisted, although the signal is emitted; and in a cache built with
  \<^verbatim>\<open>max_items=0\<close> the icon is evicted by the same \<^verbatim>\<open>_remember\<close> that inserted it, so the
  memory cache does not hold it afterwards.
\<close>

theorem download_succeeded_counterexample:
  "icon_from_bytes example_env [137, 80] = Some ([137, 80], 18)
   \<and> fst (on_download_succeeded example_env 5 ''guild:1:ab'' [137, 80]
        (example_cache\<lparr>disk := (disk example_cache)\<lparr>open_fails := UNIV\<rparr>\<rparr>)) = None
   \<and> icon_ready (snd (on_download_succeeded example_env 5 ''guild:1:ab'' [137, 80]
        (example_cache\<lparr>disk := (disk example_cache)\<lparr>open_fails := UNIV\<rparr>\<rparr>)))
     = [(''guild:1:ab'', ([137, 80], 18))]
   \<and> files (disk (snd (on_download_succeeded example_env 5 ''guild:1:ab'' [137, 80]
        (example_cache\<lparr>disk := (disk example_cache)\<lparr>open_fails := UNIV\<rparr>\<rparr>))))
        (cache_path example_env example_cache ''guild:1:ab'') = None
   \<and> fst (on_download_succeeded example_env 5 ''guild:1:ab'' [137, 80]
        (example_cache\<lparr>max_items := 0\<rparr>)) = None
   \<and> icon_ready (snd (on_download_succeeded example_env 5 ''guild:1:ab'' [137, 80]
        (example_cache\<lparr>max_items := 0\<rparr>)))
     = [(''guild:1:ab'', ([137, 80], 18))]
   \<and> memory (snd (on_download_succeeded example_env 5 ''guild:1:ab'' [137, 80]
        (example_cache\<lparr>max_items := 0\<rparr>))) = []"
  by (simp add: example_decodes on_download_succeeded_def remember_def move_to_end_def
      store_to_disk_def write_replace_def remove_tmp_def called_def cache_path_def
      example_cache_def example_fs_def Let_def)

section \<open>From disk into a fresh cache\<close>

lemma os_path_join_plain:
  "a \<noteq> [] \<Longrightarrow> last a \<noteq> CHR ''/'' \<Longrightarrow> b \<noteq> [] \<Longrightarrow> hd b \<noteq> CHR ''/'' \<Longrightarrow>
   os_path_join a b = a @ ''/'' @ b"
  by (simp add: os_path_join_def)

lemma init_fields:
  "init n cache_root d = Inr s \<Longrightarrow>
   s = \<lparr>memory = [], max_items = n, in_flight = {}, failed_until = Map.empty,
        disk_dir = os_path_join cache_root ''icons'', pool = [], icon_ready = [], logger = [],
        disk = called (MakeDirs (os_path_join cache_root ''icons'')) d\<rparr>"
  by (auto simp add: init_def Let_def split: if_splits)

text \<open>
  C8, as the code has it. For a cache root that is not empty and does not end in a
  slash, the file of a key is \<^verbatim>\<open><cache-root>/icons/<hex digest>.img\<close> (with the POSIX
  separator). \<^verbatim>\<open>_store_to_disk\<close> leaves the payload there when none of its calls raises.
  A freshly constructed cache with a bound of at least 1, asked for a key that is not the
  empty string whose file is readable and holds bytes that decode, returns with the
  decoded icon as the only entry of the memory cache and one signal emitted, after one
  \<^verbatim>\<open>isfile\<close> and one read of that file; no task is started and nothing is in flight,
  whatever URL was given.
\<close>

theorem disk_round_trip:
  "(cache_root \<noteq> [] \<and> last cache_root \<noteq> CHR ''/'' \<and> init n cache_root d = Inr s \<longrightarrow>
      cache_path E s k = cache_root @ ''/icons/'' @ hexdigest (sha256 E k) @ ''.img'')
   \<and> (cache_path E s0 k @ ''.tmp'' \<notin> open_fails (disk s0)
        \<and> write_fails (disk s0) (cache_path E s0 k @ ''.tmp'') = None
        \<and> cache_path E s0 k \<notin> replace_fails (disk s0) \<longrightarrow>
        files (disk (store_to_disk E k payload s0)) (cache_path E s0 k) = Some payload)
   \<and> (init n cache_root d = Inr s \<and> 1 \<le> n \<and> k \<noteq> []
        \<and> files d (cache_path E s k) = Some payload \<and> cache_path E s k \<notin> read_fails d
        \<and> icon_from_bytes E payload = Some icon \<longrightarrow>
        request_icon E now k url s =
          (None, s\<lparr>disk := called (OpenRead (cache_path E s k))
                              (called (IsFile (cache_path E s k)) (disk s)),
                    memory := [(k, icon)],
                    icon_ready := [(k, icon)]\<rparr>)
        \<and> pool s = [] \<and> in_flight s = {})"
proof (intro conjI impI)
  assume a: "cache_root \<noteq> [] \<and> last cache_root \<noteq> CHR ''/'' \<and> init n cache_root d = Inr s"
  then have dir: "disk_dir s = cache_root @ ''/icons''"
    using init_fields[of n cache_root d s] by (simp add: os_path_join_def)
  have "os_path_join (disk_dir s) (hexdigest (sha256 E k) @ ''.img'')
      = disk_dir s @ ''/'' @ hexdigest (sha256 E k) @ ''.img''"
    using hexdigest_hd[of "sha256 E k"] by (intro os_path_join_plain) (simp_all add: dir)
  then show "cache_path E s k = cache_root @ ''/icons/'' @ hexdigest (sha256 E k) @ ''.img''"
    by (simp add: cache_path_def dir)
next
  assume "cache_path E s0 k @ ''.tmp'' \<notin> open_fails (disk s0)
        \<and> write_fails (disk s0) (cache_path E s0 k @ ''.tmp'') = None
        \<and> cache_path E s0 k \<notin> replace_fails (disk s0)"
  then show "files (disk (store_to_disk E k payload s0)) (cache_path E s0 k) = Some payload"
    by (simp add: store_to_disk_def write_replace_ok)
next
  assume a: "init n cache_root d = Inr s \<and> 1 \<le> n \<and> k \<noteq> []
        \<and> files d (cache_path E s k) = Some payload \<and> cache_path E s k \<notin> read_fails d
        \<and> icon_from_bytes E payload = Some icon"
  note f = init_fields[of n cache_root d s]
  from a f have s: "memory s = []" "in_flight s = {}" "failed_until s = Map.empty"
    "max_items s = n" "icon_ready s = []" "pool s = []"
    "files (disk s) = files d" "read_fails (disk s) = read_fails d"
    by (simp_all add: called_def)
  let ?p = "cache_path E s k"
  let ?s1 = "s\<lparr>disk := called (OpenRead ?p) (called (IsFile ?p) (disk s))\<rparr>"
  from a s have l: "load_from_disk E k s = (Some icon, ?s1)"
    by (simp add: load_from_disk_def called_def Let_def)
  from a s have "0 \<le> max_items ?s1" by simp
  then have "remember k icon ?s1
      = (None, ?s1\<lparr>memory := put_spec (nat (max_items ?s1)) k icon (memory ?s1)\<rparr>)"
    by (rule remember_nonneg)
  moreover from a have "Suc 0 - nat n = 0" by auto
  with s have "put_spec (nat (max_items ?s1)) k icon (memory ?s1) = [(k, icon)]"
    by (simp add: put_spec_def)
  ultimately have r: "remember k icon ?s1 = (None, ?s1\<lparr>memory := [(k, icon)]\<rparr>)"
    by simp
  from a s l r show "request_icon E now k url s =
          (None, s\<lparr>disk := called (OpenRead ?p) (called (IsFile ?p) (disk s)),
                    memory := [(k, icon)],
                    icon_ready := [(k, icon)]\<rparr>)"
    by (simp add: request_icon_def cooling_down_def)
  from s show "pool s = []" and "in_flight s = {}"
    by simp_all
qed

theorem disk_round_trip_witness:
  "cache_path example_env example_cache ''guild:1:ab''
     = ''/cache'' @ ''/icons/'' @ hexdigest (sha256 example_env ''guild:1:ab'') @ ''.img''
   \<and> init 256 ''/cache'' (disk (store_to_disk example_env ''guild:1:ab'' [137, 80] example_cache))
     = Inr (example_cache\<lparr>disk := called (MakeDirs ''/cache/icons'')
          (disk (store_to_disk example_env ''guild:1:ab'' [137, 80] example_cache))\<rparr>)
   \<and> fst (request_icon example_env 7 ''guild:1:ab'' None
        (example_cache\<lparr>disk := called (MakeDirs ''/cache/icons'')
          (disk (store_to_disk example_env ''guild:1:ab'' [137, 80] example_cache))\<rparr>)) = None
   \<and> memory (snd (request_icon example_env 7 ''guild:1:ab'' None
        (example_cache\<lparr>disk := called (MakeDirs ''/cache/icons'')
          (disk (store_to_disk example_env ''guild:1:ab'' [137, 80] example_cache))\<rparr>)))
     = [(''guild:1:ab'', ([137, 80], 18))]
   \<and> pool (snd (request_icon example_env 7 ''guild:1:ab'' None
        (example_cache\<lparr>disk := called (MakeDirs ''/cache/icons'')
          (disk (store_to_disk example_env ''guild:1:ab'' [137, 80] example_cache))\<rparr>)))
     = []"
proof -
  let ?k = "''guild:1:ab''"
  let ?p = "cache_path example_env example_cache ?k"
  let ?d = "disk (store_to_disk example_env ?k [137, 80] example_cache)"
  let ?s = "example_cache\<lparr>disk := called (MakeDirs ''/cache/icons'') ?d\<rparr>"
  have nofail: "open_fails (disk example_cache) = {}" "write_fails (disk example_cache) = Map.empty"
    "replace_fails (disk example_cache) = {}"
    by (simp_all add: example_cache_def example_fs_def called_def)
  have mk: "mkdir_fails ?d = {}" "read_fails ?d = {}"
    by (simp_all add: store_to_disk_def write_replace_def called_def example_cache_def
        example_fs_def Let_def)
  have i0: "init 256 ''/cache'' example_fs = Inr example_cache"
    by (rule example_cache_init)
  have i: "init 256 ''/cache'' ?d = Inr ?s"
    using mk by (simp add: init_def os_path_join_def example_cache_def Let_def)
  have ps: "cache_path example_env ?s ?k = ?p"
    by (simp add: cache_path_def)
  note t0 = disk_round_trip [where cache_root = "''/cache''" and n = 256 and d = example_fs
      and s = example_cache and E = example_env and k = ?k and ?s0.0 = example_cache
      and payload = "[137, 80]"]
  from t0 [THEN conjunct1] i0
  have a: "?p = ''/cache'' @ ''/icons/'' @ hexdigest (sha256 example_env ?k) @ ''.img''"
    by simp
  from t0 [THEN conjunct2, THEN conjunct1] nofail
  have w: "files ?d ?p = Some [137, 80]"
    by simp
  note t1 = disk_round_trip [where cache_root = "''/cache''" and n = 256 and d = ?d
      and s = ?s and E = example_env and k = ?k and payload = "[137, 80]"
      and icon = "([137, 80], 18)" and now = 7 and url = None]
  from t1 [THEN conjunct2, THEN conjunct2] i w mk example_decodes
  have r: "request_icon example_env 7 ?k None ?s =
      (None, ?s\<lparr>disk := called (OpenRead ?p) (called (IsFile ?p) (disk ?s)),
                 memory := [(?k, ([137, 80], 18))],
                 icon_ready := [(?k, ([137, 80], 18))]\<rparr>)"
    by (simp add: ps)
  have "pool example_cache = []"
    by (simp add: example_cache_def)
  with a i show ?thesis
    unfolding r by simp
qed

text \<open>
  C8 as stated fails for the empty key: with decodable bytes in the file of the key
  \<^verbatim>\<open>""\<close>, a fresh cache returns from \<^verbatim>\<open>request_icon("", None)\<close> at its first guard and
  the memory cache stays empty.
\<close>

theorem disk_round_trip_counterexample:
  "init 256 ''/cache''
       (example_fs\<lparr>files := [cache_path example_env example_cache [] \<mapsto> [137, 80]]\<rparr>)
     = Inr (example_cache\<lparr>disk := (disk example_cache)
          \<lparr>files := [cache_path example_env example_cache [] \<mapsto> [137, 80]]\<rparr>\<rparr>)
   \<and> files (disk (example_cache\<lparr>disk := (disk example_cache)
          \<lparr>files := [cache_path example_env example_cache [] \<mapsto> [137, 80]]\<rparr>\<rparr>))
        (cache_path example_env (example_cache\<lparr>disk := (disk example_cache)
          \<lparr>files := [cache_path example_env example_cache [] \<mapsto> [137, 80]]\<rparr>\<rparr>) [])
     = Some [137, 80]
   \<and> icon_from_bytes example_env [137, 80] = Some ([137, 80], 18)
   \<and> request_icon example_env 7 [] None
        (example_cache\<lparr>disk := (disk example_cache)
          \<lparr>files := [cache_path example_env example_cache [] \<mapsto> [137, 80]]\<rparr>\<rparr>)
     = (None, example_cache\<lparr>disk := (disk example_cache)
          \<lparr>files := [cache_path example_env example_cache [] \<mapsto> [137, 80]]\<rparr>\<rparr>)
   \<and> memory (example_cache\<lparr>disk := (disk example_cache)
          \<lparr>files := [cache_path example_env example_cache [] \<mapsto> [137, 80]]\<rparr>\<rparr>) = []"
  by (simp add: example_decodes request_icon_def init_def os_path_join_def cache_path_def
      example_cache_def example_fs_def called_def Let_def)

end
